theory Spec2Isabelle
  imports
    Main
    "HOL-Library.AList"
    "HOL-Library.Char_ord"
    "HOL-Library.List_Lexorder"
    "HOL-Library.Log_Nat"
begin

section \<open>ALDR bot: the tier classifier and the change-detection cycle\<close>

text \<open>
  The development embeds \<^verbatim>\<open>monitor.py\<close> (the polling monitor) and the tier
  classifier of \<^verbatim>\<open>send_manual.py\<close>.

  Python text is modelled as \<^typ>\<open>string\<close>, one \<^typ>\<open>char\<close> per code point, and
  the character classes (\<^verbatim>\<open>str.strip\<close>, \<^verbatim>\<open>str.lower\<close>, the digits accepted by
  \<^verbatim>\<open>float\<close>) are those of the ASCII range: a character above 127 is neither
  white space nor a digit and has no lower-case form.  The order on text is the
  one of Python's \<^verbatim>\<open>sorted\<close> on \<^verbatim>\<open>str\<close>: lexicographic on code points, a proper
  prefix first.
\<close>

subsection \<open>Text primitives\<close>

definition is_space :: "char \<Rightarrow> bool" where
  \<comment> \<open>\<^verbatim>\<open>str.isspace\<close> on ASCII: TAB, LF, VT, FF, CR, FS, GS, RS, US and the blank.\<close>
  "is_space c = (let n = (of_char c :: nat) in (9 \<le> n \<and> n \<le> 13) \<or> (28 \<le> n \<and> n \<le> 32))"

definition strip :: "string \<Rightarrow> string" where
  "strip s = rev (dropWhile is_space (rev (dropWhile is_space s)))"

definition lower_char :: "char \<Rightarrow> char" where
  "lower_char c =
     (let n = (of_char c :: nat) in if 65 \<le> n \<and> n \<le> 90 then char_of (n + 32) else c)"

definition lower :: "string \<Rightarrow> string" where
  "lower s = map lower_char s"

fun split_on :: "char \<Rightarrow> string \<Rightarrow> string list" where
  \<comment> \<open>\<^verbatim>\<open>s.split(sep)\<close> for a one-character separator: never the empty list.\<close>
  "split_on sep [] = [[]]"
| "split_on sep (c # cs) =
     (if c = sep then [] # split_on sep cs
      else (case split_on sep cs of
              [] \<Rightarrow> [[c]]
            | p # ps \<Rightarrow> (c # p) # ps))"

subsection \<open>Python's \<^verbatim>\<open>float\<close>\<close>

text \<open>
  A Python float is an IEEE binary64 value.  Every finite one is a rational
  number, and the classifier only compares the value with constants that are
  binary64 values themselves, so the finite values are kept as rationals
  (the sign of zero, which no comparison sees, is dropped).
\<close>

datatype pyfloat = Fin rat | PosInf | NegInf | NaN

fun float_lt :: "pyfloat \<Rightarrow> pyfloat \<Rightarrow> bool" where
  \<comment> \<open>\<^verbatim>\<open>x < y\<close> on floats: any comparison with a NaN is false.\<close>
  "float_lt NaN _ = False"
| "float_lt _ NaN = False"
| "float_lt (Fin a) (Fin b) = (a < b)"
| "float_lt (Fin a) PosInf = True"
| "float_lt NegInf (Fin b) = True"
| "float_lt NegInf PosInf = True"
| "float_lt _ _ = False"

definition round_half_even :: "rat \<Rightarrow> int" where
  "round_half_even q =
     (let f = \<lfloor>q\<rfloor>; d = q - of_int f
      in if d < 1 / 2 then f
         else if 1 / 2 < d then f + 1
         else if even f then f else f + 1)"

definition binade :: "rat \<Rightarrow> int" where
  \<comment> \<open>For \<open>0 < q\<close>, the \<open>e\<close> with \<open>2 ^ e \<le> q < 2 ^ (e + 1)\<close>.\<close>
  "binade q =
     (let (a, b) = quotient_of q;
          e0 = bitlen a - bitlen b
      in if q < 2 powi e0 then e0 - 1 else e0)"

definition round_binary64 :: "rat \<Rightarrow> pyfloat" where
  \<comment> \<open>Round to nearest, ties to even, 53 significant bits, exponents from
      \<open>-1022\<close> (below: subnormal spacing) to \<open>1023\<close> (above: infinity).\<close>
  "round_binary64 q =
     (if q = 0 then Fin 0
      else
        let m = \<bar>q\<bar>;
            e = max (binade m) (- 1022);
            ulp = 2 powi (e - 52);
            n = round_half_even (m / ulp)
        in if 1023 < e \<or> (e = 1023 \<and> n = 2 ^ 53)
           then (if q < 0 then NegInf else PosInf)
           else Fin (sgn q * of_int n * ulp))"

definition is_digit :: "char \<Rightarrow> bool" where
  "is_digit c = (let n = (of_char c :: nat) in 48 \<le> n \<and> n \<le> 57)"

definition digits_value :: "string \<Rightarrow> int" where
  "digits_value ds = foldl (\<lambda>acc c. 10 * acc + (of_char c - 48)) 0 ds"

fun underscores_ok :: "char \<Rightarrow> string \<Rightarrow> bool" where
  \<comment> \<open>An underscore stands between two digits; the first argument is the
      character read before (NUL at the start).\<close>
  "underscores_ok prev [] = (prev \<noteq> CHR ''_'')"
| "underscores_ok prev (c # cs) =
     (if c = CHR ''_'' then is_digit prev \<and> underscores_ok c cs
      else if prev = CHR ''_'' then is_digit c \<and> underscores_ok c cs
      else underscores_ok c cs)"

definition take_sign :: "string \<Rightarrow> bool \<times> string" where
  \<comment> \<open>An optional sign; \<open>True\<close> is minus.\<close>
  "take_sign s =
     (case s of
        c # cs \<Rightarrow> if c = CHR ''-'' then (True, cs)
                  else if c = CHR ''+'' then (False, cs) else (False, s)
      | [] \<Rightarrow> (False, s))"

definition parse_decimal :: "string \<Rightarrow> rat option" where
  \<comment> \<open>\<open>digits [. digits] [e [sign] digits]\<close> with a digit before the exponent;
      the whole text must be used.\<close>
  "parse_decimal s =
     (let ip = takeWhile is_digit s;
          r1 = dropWhile is_digit s;
          (fp, r2) = (case r1 of
                        c # t \<Rightarrow> if c = CHR ''.''
                                  then (takeWhile is_digit t, dropWhile is_digit t)
                                  else ([], r1)
                      | [] \<Rightarrow> ([], r1));
          mant = digits_value (ip @ fp)
      in if ip = [] \<and> fp = [] then None
         else (case r2 of
                 [] \<Rightarrow> Some (of_int mant * 10 powi (- int (length fp)))
               | c # t \<Rightarrow>
                   if c = CHR ''e'' \<or> c = CHR ''E'' then
                     (let (neg, t') = take_sign t;
                          ed = takeWhile is_digit t';
                          ex = digits_value ed
                      in if ed = [] then None
                         else if dropWhile is_digit t' = []
                         then Some (of_int mant *
                                    10 powi ((if neg then - ex else ex) - int (length fp)))
                         else None)
                   else None))"

definition py_float :: "string \<Rightarrow> pyfloat option" where
  \<comment> \<open>\<^verbatim>\<open>float(s)\<close>; \<open>None\<close> is \<^verbatim>\<open>ValueError\<close>.\<close>
  "py_float s0 =
     (let s = strip s0
      in if \<not> underscores_ok (CHR 0x00) s then None
         else
           let (neg, body) = take_sign (filter (\<lambda>c. c \<noteq> CHR ''_'') s);
               word = lower body
           in if word = ''inf'' \<or> word = ''infinity''
              then Some (if neg then NegInf else PosInf)
              else if word = ''nan'' then Some NaN
              else (case parse_decimal body of
                      None \<Rightarrow> None
                    | Some q \<Rightarrow> Some (round_binary64 (if neg then - q else q))))"

subsection \<open>The tier classifier of the monitor\<close>

definition DIFFICULTY_EMOJI_MAP :: "(string \<times> string) list" where
  "DIFFICULTY_EMOJI_MAP =
     [(''easy'', ''<:easy:1464320027963424912>''),
      (''medium'', ''<:medium:1464320095034802289>''),
      (''hard'', ''<:hard:1464320167571095766>''),
      (''harder'', ''<:harder:1464320225075007632>''),
      (''insane'', ''<:insane:1464320293622386812>''),
      (''expert'', ''<:expert:1464320350237102337>''),
      (''extreme'', ''<:extreme:1464320430658551838>''),
      (''madness'', ''<:madness:1464320499600462119>''),
      (''master'', ''<:master:1464320549600755937>''),
      (''grandmaster'', ''<:grandmaster:1464320611038924874>''),
      (''gm1'', ''<:gm1:1464320687953940543>''),
      (''gm2'', ''<:gm2:1464320747613978748>''),
      (''tas'', ''<:tas:1464320806162268222>''),
      (''tas1'', ''<:tas1:1464320856275550414>''),
      (''tas2'', ''<:tas2:1464320904061518007>'')]"

definition numeric_emoji :: "pyfloat \<Rightarrow> string" where
  \<comment> \<open>The \<^verbatim>\<open>if\<close>/\<^verbatim>\<open>elif\<close> chain of \<^verbatim>\<open>monitor.get_difficulty_emoji\<close>.\<close>
  "numeric_emoji difficulty =
     (if float_lt difficulty (Fin (3 / 2)) then ''<:easy:1464320027963424912>''
      else if float_lt difficulty (Fin (5 / 2)) then ''<:medium:1464320095034802289>''
      else if float_lt difficulty (Fin (7 / 2)) then ''<:hard:1464320167571095766>''
      else if float_lt difficulty (Fin (9 / 2)) then ''<:harder:1464320225075007632>''
      else if float_lt difficulty (Fin (11 / 2)) then ''<:insane:1464320293622386812>''
      else if float_lt difficulty (Fin (13 / 2)) then ''<:expert:1464320350237102337>''
      else if float_lt difficulty (Fin (15 / 2)) then ''<:extreme:1464320430658551838>''
      else if float_lt difficulty (Fin (17 / 2)) then ''<:madness:1464320499600462119>''
      else if float_lt difficulty (Fin (19 / 2)) then ''<:master:1464320549600755937>''
      else ''<:grandmaster:1464320611038924874>'')"

definition get_difficulty_emoji :: "string \<Rightarrow> string" where
  \<comment> \<open>The parameter is rebound to its normalised form on the first line, and
      that is what the \<^verbatim>\<open>except ValueError\<close> branch returns.\<close>
  "get_difficulty_emoji difficulty_str0 =
     (let difficulty_str = lower (strip difficulty_str0)
      in case map_of DIFFICULTY_EMOJI_MAP difficulty_str of
           Some emoji \<Rightarrow> emoji
         | None \<Rightarrow>
             (case py_float difficulty_str of
                Some difficulty \<Rightarrow> numeric_emoji difficulty
              | None \<Rightarrow> difficulty_str))"

subsection \<open>The tier classifier of the manual sender\<close>

definition MANUAL_DIFFICULTY_EMOJI_MAP :: "(string \<times> string) list" where
  \<comment> \<open>\<^verbatim>\<open>send_manual.DIFFICULTY_EMOJI_MAP\<close>.\<close>
  "MANUAL_DIFFICULTY_EMOJI_MAP =
     (''effortless'', ''<:effortless:1470940267782869188>'') # DIFFICULTY_EMOJI_MAP"

definition manual_numeric_emoji :: "pyfloat \<Rightarrow> string" where
  \<comment> \<open>The \<^verbatim>\<open>if\<close>/\<^verbatim>\<open>elif\<close> chain of \<^verbatim>\<open>send_manual.get_difficulty_emoji\<close>.\<close>
  "manual_numeric_emoji difficulty =
     (if float_lt difficulty (Fin 1) then ''<:effortless:1470940267782869188>''
      else if float_lt difficulty (Fin 2) then ''<:easy:1464320027963424912>''
      else if float_lt difficulty (Fin 3) then ''<:medium:1464320095034802289>''
      else if float_lt difficulty (Fin 4) then ''<:hard:1464320167571095766>''
      else if float_lt difficulty (Fin 5) then ''<:harder:1464320225075007632>''
      else if float_lt difficulty (Fin 6) then ''<:insane:1464320293622386812>''
      else if float_lt difficulty (Fin 7) then ''<:expert:1464320350237102337>''
      else if float_lt difficulty (Fin 8) then ''<:extreme:1464320430658551838>''
      else if float_lt difficulty (Fin 9) then ''<:madness:1464320499600462119>''
      else if float_lt difficulty (Fin 10) then ''<:master:1464320549600755937>''
      else if float_lt difficulty (Fin 11) then ''<:grandmaster:1464320611038924874>''
      else if float_lt difficulty (Fin 12) then ''<:gm1:1464320687953940543>''
      else if float_lt difficulty (Fin 13) then ''<:gm2:1464320747613978748>''
      else if float_lt difficulty (Fin 14) then ''<:tas:1464320806162268222>''
      else if float_lt difficulty (Fin 15) then ''<:tas1:1464320856275550414>''
      else ''<:tas2:1464320904061518007>'')"

definition manual_get_difficulty_emoji :: "string \<Rightarrow> string" where
  "manual_get_difficulty_emoji difficulty_str0 =
     (let difficulty_str = lower (strip difficulty_str0)
      in case map_of MANUAL_DIFFICULTY_EMOJI_MAP difficulty_str of
           Some emoji \<Rightarrow> emoji
         | None \<Rightarrow>
             (case py_float difficulty_str of
                Some difficulty \<Rightarrow> manual_numeric_emoji difficulty
              | None \<Rightarrow> difficulty_str))"

text \<open>
  The classifier as the specification words it: an ascending list of
  (upper bound, token) pairs, the first bound the value is strictly below
  wins, and a value below none of them gets the top tier.
\<close>

fun select_tier :: "(pyfloat \<times> string) list \<Rightarrow> string \<Rightarrow> pyfloat \<Rightarrow> string" where
  "select_tier [] top_token v = top_token"
| "select_tier ((bound, token) # rest) top_token v =
     (if float_lt v bound then token else select_tier rest top_token v)"

definition monitor_thresholds :: "(pyfloat \<times> string) list" where
  "monitor_thresholds =
     [(Fin (3 / 2), ''<:easy:1464320027963424912>''),
      (Fin (5 / 2), ''<:medium:1464320095034802289>''),
      (Fin (7 / 2), ''<:hard:1464320167571095766>''),
      (Fin (9 / 2), ''<:harder:1464320225075007632>''),
      (Fin (11 / 2), ''<:insane:1464320293622386812>''),
      (Fin (13 / 2), ''<:expert:1464320350237102337>''),
      (Fin (15 / 2), ''<:extreme:1464320430658551838>''),
      (Fin (17 / 2), ''<:madness:1464320499600462119>''),
      (Fin (19 / 2), ''<:master:1464320549600755937>'')]"

definition monitor_top_tier :: string where
  "monitor_top_tier = ''<:grandmaster:1464320611038924874>''"

subsection \<open>The check cycle of the monitor\<close>

definition COLUMN_MAP :: "(string \<times> nat) list" where
  "COLUMN_MAP =
     [(''ALDR_ID'', 0), (''LEVEL_NAME'', 1), (''CREATOR'', 2), (''DIFFICULTY'', 3),
      (''SKILLS_BALANCE'', 4), (''LIST_POINTS'', 5), (''PROJECT'', 6), (''VIDEO'', 7),
      (''NOTES'', 8), (''LEVEL_CODE'', 9), (''VICTORS'', 10), (''IMPOSSIBLE'', 11),
      (''CHALLENGE'', 12), (''TRACKER_USERNAME'', 22), (''DISCORD_ID'', 24)]"

definition column :: "string \<Rightarrow> nat" where
  \<comment> \<open>\<^verbatim>\<open>COLUMN_MAP[name]\<close>, used with the literal keys of the table only.\<close>
  "column name = the (map_of COLUMN_MAP name)"

function pad_row :: "string list \<Rightarrow> string list" where
  \<comment> \<open>\<^verbatim>\<open>while len(row) < len(COLUMN_MAP): row.append('')\<close>\<close>
  "pad_row row = (if length row < length COLUMN_MAP then pad_row (row @ [[]]) else row)"
  by pat_completeness auto
termination
  by (relation "measure (\<lambda>row. length COLUMN_MAP - length row)") auto

declare pad_row.simps [simp del]

definition item :: "string \<Rightarrow> string list \<Rightarrow> string" where
  \<comment> \<open>\<^verbatim>\<open>row[COLUMN_MAP[name]].strip() if COLUMN_MAP[name] < len(row) else ''\<close>\<close>
  "item name row = (if column name < length row then strip (row ! column name) else [])"

definition parse_victors :: "string \<Rightarrow> string set" where
  \<comment> \<open>\<^verbatim>\<open>set(v.strip() for v in victors_str.split(',') if v.strip())\<close>\<close>
  "parse_victors victors_str =
     set (map strip (filter (\<lambda>v. strip v \<noteq> []) (split_on (CHR '','') victors_str)))"

record level_data =
  victors :: "string set"
  level_name :: string
  creators :: string
  difficulty :: string

text \<open>
  The module's two globals.  A dictionary is an association list in insertion
  order; assigning to a key that is present keeps its place
  (\<^const>\<open>AList.update\<close>).
\<close>

record monitor_state =
  previous_victors :: "(string \<times> string set) list"
  first_check_done :: bool

text \<open>
  One call of \<^verbatim>\<open>send_discord_message\<close>, by its arguments.  The transport
  catches its own failures and returns nothing, so a call is the whole effect
  the cycle has on the outside.
\<close>

record notification =
  victor_name :: string
  sent_level_name :: string
  sent_creators :: string
  sent_difficulty :: string
  username_to_id_map :: "(string \<times> string) list"

fun username_loop ::
  "string list list \<Rightarrow> (string \<times> string) list \<Rightarrow> string list list \<times> (string \<times> string) list"
where
  \<comment> \<open>The first loop over \<^verbatim>\<open>data[1:]\<close>: it pads every row in place and fills
      the identity map; the rows are returned as it leaves them.\<close>
  "username_loop [] m = ([], m)"
| "username_loop (row0 # rest) m =
     (let row = pad_row row0;
          username = item ''TRACKER_USERNAME'' row;
          discord_id = item ''DISCORD_ID'' row;
          m' = (if username \<noteq> [] \<and> discord_id \<noteq> []
                then AList.update username discord_id m else m);
          (rest', m'') = username_loop rest m'
      in (row # rest', m''))"

definition get_previous :: "(string \<times> string set) list \<Rightarrow> string \<Rightarrow> string set" where
  \<comment> \<open>\<^verbatim>\<open>previous_victors.get(level_id, set())\<close>\<close>
  "get_previous pv level_id = (case map_of pv level_id of None \<Rightarrow> {} | Some s \<Rightarrow> s)"

fun process_rows ::
  "monitor_state \<Rightarrow> (string \<times> string) list \<Rightarrow> string list list \<Rightarrow>
   (string \<times> level_data) list \<Rightarrow> notification list \<Rightarrow>
   (string \<times> level_data) list \<times> notification list"
where
  \<comment> \<open>The second loop: the globals are only read, the dictionary of the
      current poll and the calls made so far are carried along.\<close>
  "process_rows st id_map [] current_victors_dict sent = (current_victors_dict, sent)"
| "process_rows st id_map (row0 # rest) current_victors_dict sent =
     (let row = pad_row row0;
          level_id = item ''ALDR_ID'' row;
          level_name = item ''LEVEL_NAME'' row;
          creators = item ''CREATOR'' row;
          difficulty = item ''DIFFICULTY'' row;
          victors_str = item ''VICTORS'' row
      in if level_id = [] then process_rows st id_map rest current_victors_dict sent
         else
           let current_victors = parse_victors victors_str;
               dict' = AList.update level_id
                         \<lparr>victors = current_victors, level_name = level_name,
                          creators = creators, difficulty = difficulty\<rparr>
                         current_victors_dict;
               previous_victors_set = get_previous (previous_victors st) level_id;
               new_victors = current_victors - previous_victors_set
           in if new_victors \<noteq> {} \<and> first_check_done st
              then process_rows st id_map rest dict'
                     (sent @ map (\<lambda>victor.
                                \<lparr>victor_name = victor, sent_level_name = level_name,
                                 sent_creators = creators, sent_difficulty = difficulty,
                                 username_to_id_map = id_map\<rparr>)
                              (sorted_list_of_set new_victors))
              else process_rows st id_map rest dict' sent)"

definition replace_previous ::
  "(string \<times> level_data) list \<Rightarrow> (string \<times> string set) list \<Rightarrow> (string \<times> string set) list"
where
  \<comment> \<open>\<^verbatim>\<open>for level_id, data_dict in current_victors_dict.items():
        previous_victors[level_id] = data_dict['victors']\<close>\<close>
  "replace_previous current_victors_dict pv =
     fold (\<lambda>(level_id, data_dict). AList.update level_id (victors data_dict))
       current_victors_dict pv"

definition check_for_changes ::
  "string list list option \<Rightarrow> monitor_state \<Rightarrow> monitor_state \<times> notification list"
where
  \<comment> \<open>The first argument is what \<^verbatim>\<open>fetch_sheet_data()\<close> returned: \<open>None\<close> after
      any failure of the request or of the parse, the rows otherwise.  The
      result is the globals after the call and the calls of
      \<^verbatim>\<open>send_discord_message\<close> in order.  On rows of text no statement of the
      body raises (console output is taken to succeed), so the enclosing
      \<^verbatim>\<open>except\<close> has no branch here.\<close>
  "check_for_changes fetched st =
     (case fetched of
        None \<Rightarrow> (st, [])
      | Some data \<Rightarrow>
          if data = [] \<or> length data < 2 then (st, [])
          else
            let (rows, id_map) = username_loop (tl data) [];
                (current_victors_dict, sent) = process_rows st id_map rows [] []
            in (\<lparr>previous_victors =
                   replace_previous current_victors_dict (previous_victors st),
                 first_check_done = True\<rparr>, sent))"

subsection \<open>Notions used to state the properties\<close>

text \<open>
  What the second loop reads from one row of the sheet, the achievers of a row
  that the recorded state does not have, the call made for one of them, and the
  calls one row gives rise to.
\<close>

definition row_level_id :: "string list \<Rightarrow> string" where
  "row_level_id row = item ''ALDR_ID'' (pad_row row)"

definition row_victors :: "string list \<Rightarrow> string set" where
  "row_victors row = parse_victors (item ''VICTORS'' (pad_row row))"

definition row_data :: "string list \<Rightarrow> level_data" where
  "row_data row =
     \<lparr>victors = row_victors row, level_name = item ''LEVEL_NAME'' (pad_row row),
      creators = item ''CREATOR'' (pad_row row), difficulty = item ''DIFFICULTY'' (pad_row row)\<rparr>"

definition new_victors :: "monitor_state \<Rightarrow> string list \<Rightarrow> string set" where
  "new_victors st row =
     row_victors row - get_previous (previous_victors st) (row_level_id row)"

definition announce :: "(string \<times> string) list \<Rightarrow> string list \<Rightarrow> string \<Rightarrow> notification" where
  "announce id_map row victor =
     \<lparr>victor_name = victor, sent_level_name = item ''LEVEL_NAME'' (pad_row row),
      sent_creators = item ''CREATOR'' (pad_row row),
      sent_difficulty = item ''DIFFICULTY'' (pad_row row),
      username_to_id_map = id_map\<rparr>"

definition row_notifications ::
  "monitor_state \<Rightarrow> (string \<times> string) list \<Rightarrow> string list \<Rightarrow> notification list" where
  "row_notifications st id_map row =
     (if row_level_id row = [] then []
      else if first_check_done st
      then map (announce id_map row) (sorted_list_of_set (new_victors st row))
      else [])"

definition rows_for :: "string \<Rightarrow> string list list \<Rightarrow> string list list" where
  "rows_for level_id rows = filter (\<lambda>row. row_level_id row = level_id) rows"

definition identity_map :: "string list list \<Rightarrow> (string \<times> string) list" where
  "identity_map data = snd (username_loop (tl data) [])"

subsection \<open>Example sheets\<close>

definition sheet_row :: "string \<Rightarrow> string \<Rightarrow> string list" where
  \<comment> \<open>A row of eleven cells: the level id in column 0, the victors in column 10.\<close>
  "sheet_row level_id victors_str =
     [level_id, ''Level'', ''me'', ''3'', [], [], [], [], [], [], victors_str]"

definition sheet :: "string list list \<Rightarrow> string list list" where
  \<comment> \<open>The rows below a header row.\<close>
  "sheet rows = [''ALDR_ID'', ''LEVEL_NAME''] # rows"

definition established :: "(string \<times> string set) list \<Rightarrow> monitor_state" where
  \<comment> \<open>A state after the first completed check, with the given recorded victors.\<close>
  "established pv = \<lparr>previous_victors = pv, first_check_done = True\<rparr>"

section \<open>Properties\<close>

subsection \<open>The loops\<close>

lemma length_COLUMN_MAP: "length COLUMN_MAP = 15"
  by (simp add: COLUMN_MAP_def)

lemma pad_row_replicate: "pad_row row = row @ replicate (15 - length row) []"
proof (induction row rule: pad_row.induct)
  case (1 row)
  show ?case
  proof (cases "length row < 15")
    case True
    then have "pad_row row = pad_row (row @ [[]])"
      by (subst pad_row.simps) (simp add: length_COLUMN_MAP)
    also have "\<dots> = (row @ [[]]) @ replicate (15 - length (row @ [[]])) []"
      using True 1 by (simp add: length_COLUMN_MAP)
    also have "\<dots> = row @ replicate (15 - length row) []"
      using True by (simp add: replicate_app_Cons_same Suc_diff_Suc flip: replicate_Suc)
    finally show ?thesis .
  next
    case False
    then show ?thesis
      by (subst pad_row.simps) (simp add: length_COLUMN_MAP)
  qed
qed

lemma pad_row_idem: "pad_row (pad_row row) = pad_row row"
  by (simp add: pad_row_replicate)

lemma finite_parse_victors: "finite (parse_victors s)"
  by (simp add: parse_victors_def)

lemma finite_new_victors: "finite (new_victors st row)"
  by (simp add: new_victors_def row_victors_def finite_parse_victors)

lemma username_loop_rows: "fst (username_loop rows m) = map pad_row rows"
  by (induction rows arbitrary: m) (simp_all add: Let_def split_beta)

lemma row_level_id_pad: "row_level_id (pad_row row) = row_level_id row"
  by (simp add: row_level_id_def pad_row_idem)

lemma row_victors_pad: "row_victors (pad_row row) = row_victors row"
  by (simp add: row_victors_def pad_row_idem)

lemma new_victors_pad: "new_victors st (pad_row row) = new_victors st row"
  by (simp add: new_victors_def row_victors_pad row_level_id_pad)

lemma announce_pad: "announce m (pad_row row) = announce m row"
  by (simp add: announce_def pad_row_idem fun_eq_iff)

lemma row_notifications_pad: "row_notifications st m (pad_row row) = row_notifications st m row"
  by (simp add: row_notifications_def new_victors_pad row_level_id_pad announce_pad)

lemma announce_fun:
  "(\<lambda>victor. \<lparr>victor_name = victor, sent_level_name = item ''LEVEL_NAME'' (pad_row row),
       sent_creators = item ''CREATOR'' (pad_row row),
       sent_difficulty = item ''DIFFICULTY'' (pad_row row),
       username_to_id_map = m\<rparr>) = announce m row"
  by (simp add: announce_def fun_eq_iff)

lemma process_rows_step:
  "process_rows st m (row # rest) dict sent =
     (if row_level_id row = [] then process_rows st m rest dict sent
      else process_rows st m rest (AList.update (row_level_id row) (row_data row) dict)
             (sent @ row_notifications st m row))"
proof (cases "row_level_id row = []")
  case True
  then show ?thesis by (simp add: row_level_id_def)
next
  case False
  have fin: "finite (new_victors st row)" by (rule finite_new_victors)
  have sends: "row_notifications st m row =
      (if new_victors st row \<noteq> {} \<and> first_check_done st
       then map (announce m row) (sorted_list_of_set (new_victors st row)) else [])"
    using False fin by (auto simp: row_notifications_def)
  have "process_rows st m (row # rest) dict sent =
      (if new_victors st row \<noteq> {} \<and> first_check_done st
       then process_rows st m rest (AList.update (row_level_id row) (row_data row) dict)
              (sent @ map (announce m row) (sorted_list_of_set (new_victors st row)))
       else process_rows st m rest (AList.update (row_level_id row) (row_data row) dict) sent)"
    using False
    by (simp add: Let_def announce_fun flip: row_level_id_def row_victors_def)
       (simp add: new_victors_def row_data_def)
  then show ?thesis using False by (simp add: sends)
qed

lemma process_rows_sent:
  "snd (process_rows st m rows dict sent) = sent @ concat (map (row_notifications st m) rows)"
proof (induction rows arbitrary: dict sent)
  case Nil
  then show ?case by simp
next
  case (Cons row rows)
  show ?case
    unfolding process_rows_step using Cons
    by (simp add: row_notifications_def)
qed

lemma process_rows_lookup:
  "map_of (fst (process_rows st m rows dict sent)) L =
     (if L \<noteq> [] \<and> rows_for L rows \<noteq> [] then Some (row_data (last (rows_for L rows)))
      else map_of dict L)"
proof (induction rows arbitrary: dict sent)
  case Nil
  then show ?case by (simp add: rows_for_def)
next
  case (Cons row rows)
  show ?case
    unfolding process_rows_step using Cons
    by (auto simp: rows_for_def update_conv')
qed

lemma process_rows_distinct:
  "distinct (map fst dict) \<Longrightarrow> distinct (map fst (fst (process_rows st m rows dict sent)))"
proof (induction rows arbitrary: dict sent)
  case Nil
  then show ?case by simp
next
  case (Cons row rows)
  show ?case
    unfolding process_rows_step using Cons by (simp add: distinct_update)
qed

lemma replace_previous_lookup:
  "distinct (map fst dict) \<Longrightarrow>
   map_of (replace_previous dict pv) L =
     (case map_of dict L of Some d \<Rightarrow> Some (victors d) | None \<Rightarrow> map_of pv L)"
proof (induction dict arbitrary: pv)
  case Nil
  then show ?case by (simp add: replace_previous_def)
next
  case (Cons kd dict)
  obtain k d where kd: "kd = (k, d)" by (cases kd)
  from Cons.prems kd have notin: "map_of dict k = None" and dist: "distinct (map fst dict)"
    by (auto simp: map_of_eq_None_iff)
  have "map_of (replace_previous (kd # dict) pv) L =
        map_of (replace_previous dict (AList.update k (victors d) pv)) L"
    by (simp add: replace_previous_def kd)
  also have "\<dots> = (case map_of dict L of Some d' \<Rightarrow> Some (victors d')
                    | None \<Rightarrow> map_of (AList.update k (victors d) pv) L)"
    by (rule Cons.IH [OF dist])
  finally show ?case
    using notin by (auto simp: kd update_conv' split: option.splits)
qed

subsection \<open>One cycle\<close>

lemma username_loop_eq:
  "username_loop (tl data) [] = (map pad_row (tl data), identity_map data)"
  by (simp add: prod_eq_iff username_loop_rows identity_map_def)

lemma rows_for_pad: "rows_for L (map pad_row rows) = map pad_row (rows_for L rows)"
  by (simp add: rows_for_def filter_map comp_def row_level_id_pad)

lemma row_data_pad: "row_data (pad_row row) = row_data row"
  by (simp add: row_data_def row_victors_pad pad_row_idem)

lemma check_for_changes_short:
  "length data < 2 \<Longrightarrow> check_for_changes (Some data) st = (st, [])"
  by (simp add: check_for_changes_def)

lemma check_for_changes_unfold:
  assumes "2 \<le> length data"
  shows "check_for_changes (Some data) st =
    (\<lparr>previous_victors =
         replace_previous
           (fst (process_rows st (identity_map data) (map pad_row (tl data)) [] []))
           (previous_victors st),
       first_check_done = True\<rparr>,
     snd (process_rows st (identity_map data) (map pad_row (tl data)) [] []))"
proof -
  from assms have "data \<noteq> []" "\<not> length data < 2" by auto
  then show ?thesis
    by (simp add: check_for_changes_def username_loop_eq split_beta)
qed

lemma check_for_changes_sent:
  assumes "2 \<le> length data"
  shows "snd (check_for_changes (Some data) st) =
         concat (map (row_notifications st (identity_map data)) (tl data))"
  by (simp add: check_for_changes_unfold [OF assms] process_rows_sent comp_def
      row_notifications_pad)

lemma check_for_changes_flag:
  "2 \<le> length data \<Longrightarrow> first_check_done (fst (check_for_changes (Some data) st))"
  by (simp add: check_for_changes_unfold)

lemma check_for_changes_lookup:
  "map_of (previous_victors (fst (check_for_changes (Some data) st))) L =
     (if L \<noteq> [] \<and> rows_for L (tl data) \<noteq> []
      then Some (row_victors (last (rows_for L (tl data))))
      else map_of (previous_victors st) L)"
proof (cases "2 \<le> length data")
  case False
  then have "tl data = []" by (cases data) (auto simp: Suc_le_eq)
  with False show ?thesis
    by (simp add: check_for_changes_short rows_for_def)
next
  case True
  have dist: "distinct (map fst
      (fst (process_rows st (identity_map data) (map pad_row (tl data)) [] [])))"
    by (rule process_rows_distinct) simp
  show ?thesis
    by (simp add: check_for_changes_unfold [OF True] replace_previous_lookup [OF dist]
        process_rows_lookup rows_for_pad last_map row_data_pad)
       (simp add: row_data_def)
qed

lemma row_notifications_no_baseline:
  "\<not> first_check_done st \<Longrightarrow> row_notifications st m row = []"
  by (simp add: row_notifications_def)

lemma tl_short: "\<not> 2 \<le> length data \<Longrightarrow> tl data = []"
  by (cases data) (auto simp: Suc_le_eq)

lemma row_notifications_names:
  assumes "first_check_done st" "row_level_id row \<noteq> []"
  shows "map victor_name (row_notifications st m row) = sorted_list_of_set (new_victors st row)"
  using assms by (simp add: row_notifications_def comp_def announce_def)

lemma row_notifications_empty_iff:
  assumes "first_check_done st" "row_level_id row \<noteq> []"
  shows "row_notifications st m row = [] \<longleftrightarrow> new_victors st row = {}"
  using assms finite_new_victors [of st row]
  by (auto simp: row_notifications_def)

lemma get_previous_after:
  assumes "row \<in> set (tl data)" "row_level_id row \<noteq> []"
  shows "get_previous (previous_victors (fst (check_for_changes (Some data) st))) (row_level_id row)
         = row_victors (last (rows_for (row_level_id row) (tl data)))"
proof -
  from assms have "rows_for (row_level_id row) (tl data) \<noteq> []"
    by (auto simp: rows_for_def filter_empty_conv)
  with assms show ?thesis
    by (simp add: get_previous_def check_for_changes_lookup)
qed

lemma row_notifications_announce:
  assumes "first_check_done st" "row_level_id row \<noteq> []"
  shows "row_notifications st m row = map (announce m row) (sorted_list_of_set (new_victors st row))"
  using assms by (simp add: row_notifications_def)

lemma distinct_count:
  "distinct xs \<Longrightarrow> length (filter (\<lambda>x. x = v) xs) = (if v \<in> set xs then 1 else 0)"
  by (induction xs) auto

lemma row_notifications_count:
  assumes "first_check_done st"
  shows "length (filter (\<lambda>e. victor_name e = v) (row_notifications st m row)) =
         (if row_level_id row \<noteq> [] \<and> v \<in> new_victors st row then 1 else 0)"
proof (cases "row_level_id row = []")
  case True
  then show ?thesis by (simp add: row_notifications_def)
next
  case False
  have "length (filter (\<lambda>e. victor_name e = v) (row_notifications st m row)) =
        length (filter (\<lambda>x. x = v) (map victor_name (row_notifications st m row)))"
    by (simp add: filter_map comp_def)
  also have "\<dots> = length (filter (\<lambda>x. x = v) (sorted_list_of_set (new_victors st row)))"
    using assms False by (simp add: row_notifications_names)
  also have "\<dots> = (if v \<in> new_victors st row then 1 else 0)"
    using finite_new_victors [of st row] by (simp add: distinct_count)
  finally show ?thesis using False by simp
qed

lemma concat_count:
  "length (filter P (concat xss)) = (\<Sum>xs\<leftarrow>xss. length (filter P xs))"
  by (induction xss) auto

subsection \<open>The numeric bands of the monitor\<close>

lemma numeric_emoji_select:
  "numeric_emoji v = select_tier monitor_thresholds monitor_top_tier v"
  by (simp add: numeric_emoji_def monitor_thresholds_def monitor_top_tier_def)

lemma numeric_emoji_at_bound:
  "\<forall>p \<in> set (zip (map fst monitor_thresholds)
               (map snd (tl monitor_thresholds) @ [monitor_top_tier])).
     numeric_emoji (fst p) = snd p"
  by (simp add: numeric_emoji_def monitor_thresholds_def monitor_top_tier_def)

lemma numeric_emoji_top:
  "\<not> float_lt v (fst (last monitor_thresholds)) \<Longrightarrow> numeric_emoji v = monitor_top_tier"
  by (cases v) (simp_all add: numeric_emoji_def monitor_top_tier_def monitor_thresholds_def)

section \<open>The claims\<close>

text \<open>
  C5.  When the sheet cannot be fetched or parsed (\<^verbatim>\<open>fetch_sheet_data\<close> returns
  \<^verbatim>\<open>None\<close>), the cycle ends at once: the recorded victors and the
  first-check flag are what they were, and no notification is sent.
\<close>

theorem fetch_failure_changes_nothing: "check_for_changes None st = (st, [])"
  by (simp add: check_for_changes_def)

text \<open>
  C1, as the code has it.  A cycle that starts with the first-check flag unset
  sends no notification, whatever the sheet holds.  The flag is set afterwards
  exactly when the fetched sheet has at least two rows, a header and one more:
  a shorter sheet is taken as "no data" and leaves the flag unset.
\<close>

theorem first_poll_is_silent:
  "\<not> first_check_done st \<Longrightarrow>
   snd (check_for_changes (Some data) st) = [] \<and>
   first_check_done (fst (check_for_changes (Some data) st)) = (2 \<le> length data)"
proof (cases "2 \<le> length data")
  case True
  assume "\<not> first_check_done st"
  then show ?thesis
    using True
    by (simp add: check_for_changes_sent check_for_changes_flag row_notifications_no_baseline)
next
  case False
  assume "\<not> first_check_done st"
  with False show ?thesis by (simp add: check_for_changes_short)
qed

theorem first_poll_is_silent_witness:
  "\<not> first_check_done \<lparr>previous_victors = [], first_check_done = False\<rparr> \<and>
   snd (check_for_changes (Some (sheet [sheet_row ''L1'' ''alice'']))
          \<lparr>previous_victors = [], first_check_done = False\<rparr>) = [] \<and>
   first_check_done (fst (check_for_changes (Some (sheet [sheet_row ''L1'' ''alice'']))
          \<lparr>previous_victors = [], first_check_done = False\<rparr>))"
proof -
  have h: "\<not> first_check_done \<lparr>previous_victors = [], first_check_done = False\<rparr>" by simp
  have l: "2 \<le> length (sheet [sheet_row ''L1'' ''alice''])" by (simp add: sheet_def)
  show ?thesis
    using first_poll_is_silent [OF h, of "sheet [sheet_row ''L1'' ''alice'']"] l by simp
qed

text \<open>
  The claim as stated fails on a sheet that holds its header row only: the
  fetch succeeded, nothing is sent, and the flag is still unset afterwards.
\<close>

theorem header_only_sheet_counterexample:
  "snd (check_for_changes (Some (sheet []))
          \<lparr>previous_victors = [], first_check_done = False\<rparr>) = [] \<and>
   \<not> first_check_done (fst (check_for_changes (Some (sheet []))
          \<lparr>previous_victors = [], first_check_done = False\<rparr>))"
  by (simp add: check_for_changes_def sheet_def)

text \<open>
  C2, as the code has it.  When the same sheet is processed twice in a row, the
  second cycle sends nothing exactly when every row with a level id lists only
  victors that the last row with the same level id lists too.  That is so
  whenever no level id stands in two rows.  Each row is compared with the
  recorded set, and the recorded set of a level is the one of its last row.
\<close>

theorem repeated_snapshot_silent_iff:
  "snd (check_for_changes (Some data) (fst (check_for_changes (Some data) st))) = [] \<longleftrightarrow>
   (\<forall>row \<in> set (tl data). row_level_id row \<noteq> [] \<longrightarrow>
      row_victors row \<subseteq> row_victors (last (rows_for (row_level_id row) (tl data))))"
proof (cases "2 \<le> length data")
  case False
  then show ?thesis by (simp add: check_for_changes_short tl_short)
next
  case True
  let ?st1 = "fst (check_for_changes (Some data) st)"
  have flag: "first_check_done ?st1" using True by (rule check_for_changes_flag)
  have row: "row_notifications ?st1 m row = [] \<longleftrightarrow>
        (row_level_id row \<noteq> [] \<longrightarrow>
          row_victors row \<subseteq> row_victors (last (rows_for (row_level_id row) (tl data))))"
    if "row \<in> set (tl data)" for row m
  proof (cases "row_level_id row = []")
    case True
    then show ?thesis by (simp add: row_notifications_def)
  next
    case False
    then show ?thesis
      using that flag
      by (simp add: row_notifications_empty_iff new_victors_def get_previous_after)
  qed
  show ?thesis
    by (simp add: check_for_changes_sent [OF True] row)
qed

theorem repeated_snapshot_silent_iff_witness:
  "snd (check_for_changes (Some (sheet [sheet_row ''L1'' ''alice'', sheet_row ''L2'' ''bob'']))
     (fst (check_for_changes (Some (sheet [sheet_row ''L1'' ''alice'', sheet_row ''L2'' ''bob'']))
        (established [])))) = []"
proof -
  have "\<forall>row \<in> set (tl (sheet [sheet_row ''L1'' ''alice'', sheet_row ''L2'' ''bob''])).
          row_level_id row \<noteq> [] \<longrightarrow>
          row_victors row \<subseteq> row_victors (last (rows_for (row_level_id row)
             (tl (sheet [sheet_row ''L1'' ''alice'', sheet_row ''L2'' ''bob'']))))"
    by code_simp
  then show ?thesis
    using repeated_snapshot_silent_iff
      [of "sheet [sheet_row ''L1'' ''alice'', sheet_row ''L2'' ''bob'']" "established []"]
    by simp
qed

text \<open>
  The claim as stated fails on a sheet with two rows for level \<open>L1\<close>, the first
  listing \<open>a\<close> and the second \<open>b\<close>: after the first cycle the recorded set is
  \<open>{b}\<close>, so the second cycle announces \<open>a\<close> again.
\<close>

theorem duplicate_key_counterexample:
  "first_check_done (established []) \<and>
   map victor_name
     (snd (check_for_changes (Some (sheet [sheet_row ''L1'' ''a'', sheet_row ''L1'' ''b'']))
        (fst (check_for_changes (Some (sheet [sheet_row ''L1'' ''a'', sheet_row ''L1'' ''b'']))
           (established []))))) = [''a'']"
  by code_simp

text \<open>
  C3.  In a cycle that starts with the first-check flag set, the calls sent are
  those of the rows, in row order.  A row with a level id gives one call per
  victor that the recorded set of its level lacks, in ascending lexicographic
  order of the victors' names, each carrying the row's level name, creators and
  difficulty.  When the recorded set is \<open>{a}\<close> and the row lists \<open>{a, b}\<close>, the
  row gives exactly one call, for \<open>b\<close>.
\<close>

theorem new_victors_announced_in_order:
  assumes "first_check_done st" and "2 \<le> length data"
  shows
    "snd (check_for_changes (Some data) st) =
       concat (map (row_notifications st (identity_map data)) (tl data)) \<and>
     (\<forall>row. row_level_id row \<noteq> [] \<longrightarrow>
        row_notifications st (identity_map data) row =
          map (announce (identity_map data) row)
            (map victor_name (row_notifications st (identity_map data) row)) \<and>
        sorted (map victor_name (row_notifications st (identity_map data) row)) \<and>
        distinct (map victor_name (row_notifications st (identity_map data) row)) \<and>
        set (map victor_name (row_notifications st (identity_map data) row)) =
          row_victors row - get_previous (previous_victors st) (row_level_id row)) \<and>
     (\<forall>row a b. row_level_id row \<noteq> [] \<and>
        get_previous (previous_victors st) (row_level_id row) = {a} \<and>
        row_victors row = {a, b} \<and> a \<noteq> b \<longrightarrow>
        row_notifications st (identity_map data) row = [announce (identity_map data) row b])"
proof (intro conjI allI impI)
  show "snd (check_for_changes (Some data) st) =
       concat (map (row_notifications st (identity_map data)) (tl data))"
    using assms(2) by (rule check_for_changes_sent)
next
  fix row :: "string list"
  assume id: "row_level_id row \<noteq> []"
  let ?m = "identity_map data"
  have names: "map victor_name (row_notifications st ?m row) =
      sorted_list_of_set (new_victors st row)"
    using assms(1) id by (rule row_notifications_names)
  show "row_notifications st ?m row =
      map (announce ?m row) (map victor_name (row_notifications st ?m row))"
    unfolding names using assms(1) id by (rule row_notifications_announce)
  show "sorted (map victor_name (row_notifications st ?m row))"
    unfolding names by simp
  show "distinct (map victor_name (row_notifications st ?m row))"
    unfolding names by simp
  show "set (map victor_name (row_notifications st ?m row)) =
      row_victors row - get_previous (previous_victors st) (row_level_id row)"
    unfolding names using finite_new_victors [of st row] by (simp add: new_victors_def)
next
  fix row :: "string list" and a b :: string
  assume h: "row_level_id row \<noteq> [] \<and>
        get_previous (previous_victors st) (row_level_id row) = {a} \<and>
        row_victors row = {a, b} \<and> a \<noteq> b"
  then have "new_victors st row = {b}"
    by (auto simp: new_victors_def)
  with h assms(1) show
    "row_notifications st (identity_map data) row = [announce (identity_map data) row b]"
    by (simp add: row_notifications_announce)
qed

theorem new_victors_announced_in_order_witness:
  "first_check_done (established [(''L1'', {''alice''})]) \<and>
   2 \<le> length (sheet [sheet_row ''L1'' ''alice, bob'', sheet_row ''L2'' ''dave,carol'']) \<and>
   map victor_name
     (snd (check_for_changes
        (Some (sheet [sheet_row ''L1'' ''alice, bob'', sheet_row ''L2'' ''dave,carol'']))
        (established [(''L1'', {''alice''})]))) = [''bob'', ''carol'', ''dave''] \<and>
   row_notifications (established [(''L1'', {''alice''})])
     (identity_map (sheet [sheet_row ''L1'' ''alice, bob'', sheet_row ''L2'' ''dave,carol'']))
     (sheet_row ''L1'' ''alice, bob'') =
   [announce
      (identity_map (sheet [sheet_row ''L1'' ''alice, bob'', sheet_row ''L2'' ''dave,carol'']))
      (sheet_row ''L1'' ''alice, bob'') ''bob'']"
proof -
  let ?st = "established [(''L1'', {''alice''})]"
  let ?data = "sheet [sheet_row ''L1'' ''alice, bob'', sheet_row ''L2'' ''dave,carol'']"
  let ?row = "sheet_row ''L1'' ''alice, bob''"
  have h: "first_check_done ?st" by (simp add: established_def)
  have l: "2 \<le> length ?data" by (simp add: sheet_def)
  note main = new_victors_announced_in_order [OF h l]
  have sent: "snd (check_for_changes (Some ?data) ?st) =
      concat (map (row_notifications ?st (identity_map ?data)) (tl ?data))"
    using main by (rule conjunct1)
  have names: "map victor_name
      (concat (map (row_notifications ?st (identity_map ?data)) (tl ?data))) =
      [''bob'', ''carol'', ''dave'']"
    by code_simp
  have grow: "row_level_id ?row \<noteq> [] \<and>
      get_previous (previous_victors ?st) (row_level_id ?row) = {''alice''} \<and>
      row_victors ?row = {''alice'', ''bob''} \<and> ''alice'' \<noteq> ''bob''"
    by code_simp
  have one: "row_notifications ?st (identity_map ?data) ?row =
      [announce (identity_map ?data) ?row ''bob'']"
    using main [THEN conjunct2, THEN conjunct2, rule_format, OF grow] .
  show ?thesis using h l sent names one by simp
qed

text \<open>
  C4.  After a cycle on a fetched sheet, the recorded set of a level that
  stands in a row of the sheet is the set of victors that row lists (the last
  such row, when there are several) and nothing else, and the recorded entry of
  a level with no row in the sheet is what it was.
\<close>

theorem recorded_sets_replaced:
  "(level_id \<noteq> [] \<and> rows_for level_id (tl data) \<noteq> [] \<longrightarrow>
      map_of (previous_victors (fst (check_for_changes (Some data) st))) level_id =
        Some (row_victors (last (rows_for level_id (tl data))))) \<and>
   (rows_for level_id (tl data) = [] \<longrightarrow>
      map_of (previous_victors (fst (check_for_changes (Some data) st))) level_id =
        map_of (previous_victors st) level_id)"
  by (simp add: check_for_changes_lookup)

theorem recorded_sets_replaced_witness:
  "map_of (previous_victors (fst (check_for_changes (Some (sheet [sheet_row ''L1'' ''bob'']))
      (established [(''L1'', {''alice''}), (''L2'', {''zed''})])))) ''L1'' = Some {''bob''} \<and>
   map_of (previous_victors (fst (check_for_changes (Some (sheet [sheet_row ''L1'' ''bob'']))
      (established [(''L1'', {''alice''}), (''L2'', {''zed''})])))) ''L2'' = Some {''zed''}"
proof -
  let ?st = "established [(''L1'', {''alice''}), (''L2'', {''zed''})]"
  let ?data = "sheet [sheet_row ''L1'' ''bob'']"
  have p1: "''L1'' \<noteq> [] \<and> rows_for ''L1'' (tl ?data) \<noteq> []" by code_simp
  have v1: "row_victors (last (rows_for ''L1'' (tl ?data))) = {''bob''}" by code_simp
  have p2: "rows_for ''L2'' (tl ?data) = []" by code_simp
  have v2: "map_of (previous_victors ?st) ''L2'' = Some {''zed''}" by code_simp
  show ?thesis
    using recorded_sets_replaced [of "''L1''" ?data ?st]
      recorded_sets_replaced [of "''L2''" ?data ?st] p1 v1 p2 v2
    by simp
qed

text \<open>
  C9.  When a completed cycle saw a level without some victor, and a row of the
  next sheet lists that victor for the level, the next cycle announces the
  victor, whether or not an earlier cycle had recorded the victor already.
\<close>

theorem readded_victor_announced_again:
  assumes "2 \<le> length data1"
    and "level_id \<noteq> []"
    and "rows_for level_id (tl data1) \<noteq> []"
    and "victor \<notin> row_victors (last (rows_for level_id (tl data1)))"
    and "row \<in> set (tl data2)"
    and "row_level_id row = level_id"
    and "victor \<in> row_victors row"
  shows "announce (identity_map data2) row victor \<in>
           set (snd (check_for_changes (Some data2)
                       (fst (check_for_changes (Some data1) st))))"
proof -
  let ?st1 = "fst (check_for_changes (Some data1) st)"
  have flag: "first_check_done ?st1" using assms(1) by (rule check_for_changes_flag)
  have len: "2 \<le> length data2"
  proof (rule ccontr)
    assume "\<not> 2 \<le> length data2"
    then have "tl data2 = []" by (rule tl_short)
    with assms(5) show False by simp
  qed
  have "get_previous (previous_victors ?st1) level_id =
      row_victors (last (rows_for level_id (tl data1)))"
    using assms(2,3) by (simp add: get_previous_def check_for_changes_lookup)
  with assms(4,6,7) have new: "victor \<in> new_victors ?st1 row"
    by (simp add: new_victors_def)
  have "announce (identity_map data2) row victor \<in>
      set (row_notifications ?st1 (identity_map data2) row)"
    using flag assms(2,6) new finite_new_victors [of ?st1 row]
    by (simp add: row_notifications_announce)
  with assms(5) show ?thesis
    by (auto simp: check_for_changes_sent [OF len])
qed

theorem readded_victor_announced_again_witness:
  "announce (identity_map (sheet [sheet_row ''L1'' ''bob, alice'']))
     (sheet_row ''L1'' ''bob, alice'') ''alice'' \<in>
   set (snd (check_for_changes (Some (sheet [sheet_row ''L1'' ''bob, alice'']))
     (fst (check_for_changes (Some (sheet [sheet_row ''L1'' ''bob'']))
        (established [(''L1'', {''alice'', ''bob''})])))))"
proof -
  let ?data1 = "sheet [sheet_row ''L1'' ''bob'']"
  let ?data2 = "sheet [sheet_row ''L1'' ''bob, alice'']"
  let ?row = "sheet_row ''L1'' ''bob, alice''"
  have a1: "2 \<le> length ?data1" by (simp add: sheet_def)
  have a2: "''L1'' \<noteq> []" by simp
  have a3: "rows_for ''L1'' (tl ?data1) \<noteq> []" by code_simp
  have a4: "''alice'' \<notin> row_victors (last (rows_for ''L1'' (tl ?data1)))" by code_simp
  have a5: "?row \<in> set (tl ?data2)" by (simp add: sheet_def)
  have a6: "row_level_id ?row = ''L1''" by code_simp
  have a7: "''alice'' \<in> row_victors ?row" by code_simp
  show ?thesis
    by (rule readded_victor_announced_again [OF a1 a2 a3 a4 a5 a6 a7])
qed

text \<open>
  C10.  Every row is compared with the recorded set as it was before the cycle:
  with the first-check flag set, the number of calls for a victor is the number
  of rows that have a level id and list the victor while the recorded set of
  their level, before the cycle, lacks it.  So a victor new in several rows of
  one level is announced once per row.  Afterwards the recorded set of the
  level is the one of its last row.
\<close>

theorem duplicate_rows_diffed_against_recorded:
  assumes "first_check_done st"
  shows
    "length (filter (\<lambda>e. victor_name e = victor) (snd (check_for_changes (Some data) st))) =
     length (filter (\<lambda>row. row_level_id row \<noteq> [] \<and>
                victor \<in> row_victors row - get_previous (previous_victors st) (row_level_id row))
               (tl data)) \<and>
     (level_id \<noteq> [] \<and> rows_for level_id (tl data) \<noteq> [] \<longrightarrow>
        get_previous (previous_victors (fst (check_for_changes (Some data) st))) level_id =
          row_victors (last (rows_for level_id (tl data))))"
proof (intro conjI impI)
  have sum: "(\<Sum>row\<leftarrow>rows. if P row then 1 else 0) = length (filter P rows)"
    for P :: "string list \<Rightarrow> bool" and rows
    by (induction rows) auto
  show "length (filter (\<lambda>e. victor_name e = victor) (snd (check_for_changes (Some data) st))) =
     length (filter (\<lambda>row. row_level_id row \<noteq> [] \<and>
                victor \<in> row_victors row - get_previous (previous_victors st) (row_level_id row))
               (tl data))"
  proof (cases "2 \<le> length data")
    case True
    show ?thesis
      using assms
      by (simp add: check_for_changes_sent [OF True] concat_count comp_def
          row_notifications_count sum new_victors_def)
  next
    case False
    then show ?thesis by (simp add: check_for_changes_short tl_short)
  qed
next
  assume "level_id \<noteq> [] \<and> rows_for level_id (tl data) \<noteq> []"
  then show "get_previous (previous_victors (fst (check_for_changes (Some data) st))) level_id =
          row_victors (last (rows_for level_id (tl data)))"
    by (simp add: get_previous_def check_for_changes_lookup)
qed

theorem duplicate_rows_diffed_against_recorded_witness:
  "first_check_done (established []) \<and>
   length (filter (\<lambda>e. victor_name e = ''a'')
     (snd (check_for_changes (Some (sheet [sheet_row ''L1'' ''a'', sheet_row ''L1'' ''a, b'']))
        (established [])))) = 2 \<and>
   get_previous (previous_victors
     (fst (check_for_changes (Some (sheet [sheet_row ''L1'' ''a'', sheet_row ''L1'' ''a, b'']))
        (established [])))) ''L1'' = {''a'', ''b''}"
proof -
  let ?st = "established []"
  let ?data = "sheet [sheet_row ''L1'' ''a'', sheet_row ''L1'' ''a, b'']"
  have h: "first_check_done ?st" by (simp add: established_def)
  have n: "length (filter (\<lambda>row. row_level_id row \<noteq> [] \<and>
        ''a'' \<in> row_victors row - get_previous (previous_victors ?st) (row_level_id row))
        (tl ?data)) = 2"
    by code_simp
  have p: "''L1'' \<noteq> [] \<and> rows_for ''L1'' (tl ?data) \<noteq> []" by code_simp
  have v: "row_victors (last (rows_for ''L1'' (tl ?data))) = {''a'', ''b''}" by code_simp
  show ?thesis
    using duplicate_rows_diffed_against_recorded [OF h, of "''a''" ?data "''L1''"] h n p v
    by simp
qed

text \<open>
  C7.  For text that is no named tier and that \<^verbatim>\<open>float\<close> accepts, the
  monitor's classifier returns the token of the first band whose upper bound
  the value is strictly below, and the top tier when there is none.  So a value
  equal to a bound gets the token of the band above it, and a value not below
  the last bound gets the top tier.
\<close>

theorem numeric_tier_by_thresholds:
  assumes "map_of DIFFICULTY_EMOJI_MAP (lower (strip s)) = None"
    and "py_float (lower (strip s)) = Some v"
  shows "get_difficulty_emoji s = select_tier monitor_thresholds monitor_top_tier v \<and>
    (\<forall>(bound, token_above) \<in>
        set (zip (map fst monitor_thresholds)
               (map snd (tl monitor_thresholds) @ [monitor_top_tier])).
       v = bound \<longrightarrow> get_difficulty_emoji s = token_above) \<and>
    (\<not> float_lt v (fst (last monitor_thresholds)) \<longrightarrow>
       get_difficulty_emoji s = monitor_top_tier)"
proof -
  have eq: "get_difficulty_emoji s = numeric_emoji v"
    using assms by (simp add: get_difficulty_emoji_def)
  have c1: "get_difficulty_emoji s = select_tier monitor_thresholds monitor_top_tier v"
    unfolding eq by (rule numeric_emoji_select)
  have c2: "\<forall>(bound, token_above) \<in>
        set (zip (map fst monitor_thresholds)
               (map snd (tl monitor_thresholds) @ [monitor_top_tier])).
       v = bound \<longrightarrow> get_difficulty_emoji s = token_above"
    unfolding eq using numeric_emoji_at_bound by fastforce
  have c3: "\<not> float_lt v (fst (last monitor_thresholds)) \<longrightarrow>
       get_difficulty_emoji s = monitor_top_tier"
    unfolding eq using numeric_emoji_top by blast
  from c1 c2 c3 show ?thesis by (intro conjI)
qed

theorem numeric_tier_by_thresholds_witness:
  "map_of DIFFICULTY_EMOJI_MAP (lower (strip ''1.5'')) = None \<and>
   py_float (lower (strip ''1.5'')) = Some (Fin (3 / 2)) \<and>
   get_difficulty_emoji ''1.5'' = ''<:medium:1464320095034802289>''"
proof -
  have a: "map_of DIFFICULTY_EMOJI_MAP (lower (strip ''1.5'')) = None" by code_simp
  have b: "py_float (lower (strip ''1.5'')) = Some (Fin (3 / 2))" by code_simp
  have c: "select_tier monitor_thresholds monitor_top_tier (Fin (3 / 2)) =
      ''<:medium:1464320095034802289>''"
    by code_simp
  show ?thesis
    using numeric_tier_by_thresholds [OF a b] a b c by simp
qed

text \<open>
  C8.  The two classifiers differ: on \<open>0.5\<close>, which \<^verbatim>\<open>float\<close> reads as one
  half, the monitor answers with the token of \<open>easy\<close> and the manual sender
  with the token of \<open>effortless\<close>.
\<close>

theorem classifiers_disagree:
  "py_float (lower (strip ''0.5'')) = Some (Fin (1 / 2)) \<and>
   get_difficulty_emoji ''0.5'' = ''<:easy:1464320027963424912>'' \<and>
   manual_get_difficulty_emoji ''0.5'' = ''<:effortless:1470940267782869188>'' \<and>
   get_difficulty_emoji ''0.5'' \<noteq> manual_get_difficulty_emoji ''0.5''"
  by code_simp

text \<open>
  C6.  What both classifiers return for text that is no named tier and that
  \<^verbatim>\<open>float\<close> rejects is the trimmed, lower-cased text, not the text they were
  given: for \<open>Foo\<close> they return \<open>foo\<close>.
\<close>

theorem unparsed_text_is_normalised:
  "map_of DIFFICULTY_EMOJI_MAP (lower (strip ''Foo'')) = None \<and>
   py_float (lower (strip ''Foo'')) = None \<and>
   get_difficulty_emoji ''Foo'' = ''foo'' \<and>
   manual_get_difficulty_emoji ''Foo'' = ''foo''"
  by code_simp

end
